theory Spec2Isabelle
  imports Main "HOL-Library.Multiset"
begin

section \<open>The blog's views (blogicum/blog/views.py)\<close>

text \<open>
  The views of the blog are embedded as functions over an explicit database value.
  A view method that reads the database takes it as an argument; a view that may write
  returns the database next to its response. An exception raised by a view is the
  \<open>Inl\<close> of a sum, so that every \<^verbatim>\<open>raise\<close> of the source is a branch here.
  The current time, read by \<^verbatim>\<open>timezone.now()\<close>, is the argument \<open>now\<close>.
\<close>

subsection \<open>Entities\<close>

text \<open>
  Modelled from the spec: models.py is not among the sources. The rows below carry the
  fields that section 3 of the specification lists for User, Category, Post and Comment.
  A foreign key is the column holding the primary key of the referenced row, as Django
  stores it (\<^verbatim>\<open>author_id\<close>, \<^verbatim>\<open>category_id\<close>, \<^verbatim>\<open>post_id\<close>); timestamps are integers.
\<close>

record user =
  user_pk :: nat
  username :: string
  email :: string

record category =
  category_pk :: nat
  category_title :: string
  category_slug :: string
  category_is_published :: bool

record post =
  post_pk :: nat
  post_title :: string
  post_text :: string
  post_author_id :: nat
  post_category_id :: nat
  post_location_id :: "nat option"
  post_pub_date :: int
  post_is_published :: bool
  post_created_at :: int

record comment =
  comment_pk :: nat
  comment_post_id :: nat
  comment_author_id :: nat
  comment_text :: string
  comment_created_at :: int

text \<open>The persistence layer: one list of rows per table, in storage order.\<close>

record db =
  users :: "user list"
  categories :: "category list"
  posts :: "post list"
  comments :: "comment list"

text \<open>
  \<^verbatim>\<open>request.user\<close> is Django's \<^verbatim>\<open>AnonymousUser\<close> or the row of the signed-in user.
\<close>

datatype request_user = AnonymousUser | User user

fun is_authenticated :: "request_user \<Rightarrow> bool" where
  "is_authenticated AnonymousUser = False"
| "is_authenticated (User u) = True"

text \<open>
  \<^verbatim>\<open>entity.author == request.user\<close>: two model instances are equal when their primary
  keys are; \<^verbatim>\<open>AnonymousUser\<close> is equal to no row.
\<close>

fun user_eq :: "user \<Rightarrow> request_user \<Rightarrow> bool" where
  "user_eq a AnonymousUser = False"
| "user_eq a (User u) = (user_pk a = user_pk u)"

subsection \<open>Exceptions and the object manager\<close>

datatype error =
  Http404
| PermissionDenied
| DoesNotExist
| MultipleObjectsReturned
| TypeError
| ValueError
| AttributeError

text \<open>
  \<^verbatim>\<open>QuerySet.get\<close>: the one row that matches, \<^verbatim>\<open>DoesNotExist\<close> when none does and
  \<^verbatim>\<open>MultipleObjectsReturned\<close> when several do.
\<close>

definition queryset_get :: "('a \<Rightarrow> bool) \<Rightarrow> 'a list \<Rightarrow> error + 'a" where
  "queryset_get cond rows =
     (case filter cond rows of
        [] \<Rightarrow> Inl DoesNotExist
      | [x] \<Rightarrow> Inr x
      | x # y # zs \<Rightarrow> Inl MultipleObjectsReturned)"

text \<open>
  \<^verbatim>\<open>get_object_or_404\<close> turns \<^verbatim>\<open>DoesNotExist\<close> into \<^verbatim>\<open>Http404\<close> and lets every
  other exception through. The default \<^verbatim>\<open>get_object\<close> of the generic views does the same
  with the primary key taken from the URL.
\<close>

definition get_object_or_404 :: "('a \<Rightarrow> bool) \<Rightarrow> 'a list \<Rightarrow> error + 'a" where
  "get_object_or_404 cond rows =
     (case queryset_get cond rows of
        Inl e \<Rightarrow> if e = DoesNotExist then Inl Http404 else Inl e
      | Inr x \<Rightarrow> Inr x)"

text \<open>
  Reading a foreign-key attribute (\<^verbatim>\<open>post.author\<close>, \<^verbatim>\<open>post.category\<close>,
  \<^verbatim>\<open>comment.author\<close>) fetches the referenced row by its primary key.
\<close>

definition post_author :: "db \<Rightarrow> post \<Rightarrow> error + user" where
  "post_author d p = queryset_get (\<lambda>u. user_pk u = post_author_id p) (users d)"

definition post_category :: "db \<Rightarrow> post \<Rightarrow> error + category" where
  "post_category d p = queryset_get (\<lambda>c. category_pk c = post_category_id p) (categories d)"

definition comment_author :: "db \<Rightarrow> comment \<Rightarrow> error + user" where
  "comment_author d c = queryset_get (\<lambda>u. user_pk u = comment_author_id c) (users d)"

subsection \<open>Query building blocks\<close>

text \<open>
  The lookup \<^verbatim>\<open>category__is_published=True\<close> joins a post with its category row and
  keeps the post when that row is published. Primary keys are unique, so the join
  yields a post at most once: it is a test on the post.
\<close>

definition category__is_published :: "db \<Rightarrow> post \<Rightarrow> bool" where
  "category__is_published d p =
     list_ex (\<lambda>c. category_pk c = post_category_id p \<and> category_is_published c) (categories d)"

text \<open>
  \<^verbatim>\<open>annotate(comment_count=Count('comments'))\<close> adds to each post the number of comment
  rows that reference it.
\<close>

record annotated_post =
  row :: post
  comment_count :: nat

definition Count_comments :: "db \<Rightarrow> post \<Rightarrow> nat" where
  "Count_comments d p = length (filter (\<lambda>c. comment_post_id c = post_pk p) (comments d))"

definition annotate :: "db \<Rightarrow> post list \<Rightarrow> annotated_post list" where
  "annotate d ps = map (\<lambda>p. \<lparr>row = p, comment_count = Count_comments d p\<rparr>) ps"

text \<open>
  \<^verbatim>\<open>order_by('-pub_date')\<close>: descending publication date. Rows with equal dates keep
  their storage order. The function \<open>of_row\<close> reads the post of a result row, which is
  annotated or not according to where the source places the call.
\<close>

definition order_by_pub_date_desc :: "('a \<Rightarrow> post) \<Rightarrow> 'a list \<Rightarrow> 'a list" where
  "order_by_pub_date_desc of_row rs = sort_key (\<lambda>r. - post_pub_date (of_row r)) rs"

text \<open>
  \<^verbatim>\<open>select_related\<close> and \<^verbatim>\<open>prefetch_related\<close> change how related rows are loaded and
  not which posts a query returns; they have no counterpart below.
\<close>

subsection \<open>PostListView\<close>

definition PostListView_get_queryset :: "db \<Rightarrow> int \<Rightarrow> annotated_post list" where
  "PostListView_get_queryset d now =
     annotate d
       (order_by_pub_date_desc (\<lambda>p. p)
          (filter (\<lambda>p. post_is_published p \<and> post_pub_date p \<le> now \<and> category__is_published d p)
             (posts d)))"

subsection \<open>PostDetailView\<close>

text \<open>
  The condition of \<^verbatim>\<open>get_object\<close> is evaluated left to right and stops early, as
  Python's \<^verbatim>\<open>or\<close> and \<^verbatim>\<open>and\<close> do: the category is fetched only for a published post
  whose author is not the viewer.
\<close>

definition PostDetailView_get_object :: "db \<Rightarrow> request_user \<Rightarrow> int \<Rightarrow> nat \<Rightarrow> error + post" where
  "PostDetailView_get_object d request_user now post_id =
     (case get_object_or_404 (\<lambda>p. post_pk p = post_id) (posts d) of
        Inl e \<Rightarrow> Inl e
      | Inr post \<Rightarrow>
          (case post_author d post of
             Inl e \<Rightarrow> Inl e
           | Inr author \<Rightarrow>
               if user_eq author request_user then Inr post
               else if \<not> post_is_published post then Inl Http404
               else
                 (case post_category d post of
                    Inl e \<Rightarrow> Inl e
                  | Inr cat \<Rightarrow>
                      if category_is_published cat \<and> post_pub_date post \<le> now then Inr post
                      else Inl Http404)))"

subsection \<open>ProfileView\<close>

text \<open>
  The view has the request at hand (\<^verbatim>\<open>self.request.user\<close>, the argument
  \<open>request_user\<close>) and does not read it.
\<close>

definition ProfileView_get_queryset ::
  "db \<Rightarrow> request_user \<Rightarrow> string \<Rightarrow> error + annotated_post list" where
  "ProfileView_get_queryset d request_user uname =
     (case get_object_or_404 (\<lambda>u. username u = uname) (users d) of
        Inl e \<Rightarrow> Inl e
      | Inr profile \<Rightarrow>
          Inr (order_by_pub_date_desc row
                 (annotate d (filter (\<lambda>p. post_author_id p = user_pk profile) (posts d)))))"

subsection \<open>CategoryPostsView\<close>

definition CategoryPostsView_get_queryset ::
  "db \<Rightarrow> int \<Rightarrow> string \<Rightarrow> error + annotated_post list" where
  "CategoryPostsView_get_queryset d now category_slug_kw =
     (case get_object_or_404
             (\<lambda>c. category_slug c = category_slug_kw \<and> category_is_published c) (categories d) of
        Inl e \<Rightarrow> Inl e
      | Inr cat \<Rightarrow>
          Inr (filter (\<lambda>r. category__is_published d (row r))
                 (annotate d
                    (order_by_pub_date_desc (\<lambda>p. p)
                       (filter (\<lambda>p. post_is_published p \<and> post_pub_date p \<le> now
                                  \<and> post_category_id p = category_pk cat)
                          (posts d))))))"

subsection \<open>Requests, responses and the generic views\<close>

text \<open>
  A request carries its user and its method. A \<^verbatim>\<open>POST\<close> to a form view carries the
  bound form: \<open>None\<close> when \<^verbatim>\<open>form.is_valid()\<close> is false, and otherwise the instance
  that the form built from its cleaned data (forms.py is not among the sources, so the
  form's outcome is an input). A \<^verbatim>\<open>POST\<close> to a delete view carries nothing.
\<close>

datatype 'a http_method = GET | POST 'a

text \<open>
  The targets of the redirects that the views build with \<^verbatim>\<open>reverse\<close>. The login page is
  the view's own \<^verbatim>\<open>login_url\<close> when it sets one and \<^verbatim>\<open>settings.LOGIN_URL\<close> otherwise.
\<close>

datatype url =
  Login "string option"
| Index
| PostDetail nat
| Profile string

datatype response =
  HttpResponseRedirect url
| TemplateResponse string

type_synonym outcome = "(error + response) \<times> db"

text \<open>
  \<^verbatim>\<open>AccessMixin.handle_no_permission\<close>, with \<^verbatim>\<open>raise_exception\<close> left at its default
  \<^verbatim>\<open>False\<close> as every view of the file leaves it, and \<^verbatim>\<open>LoginRequiredMixin.dispatch\<close>,
  which hands over to the next \<^verbatim>\<open>dispatch\<close> in the method resolution order only for a
  signed-in user.
\<close>

definition handle_no_permission :: "request_user \<Rightarrow> string option \<Rightarrow> error + response" where
  "handle_no_permission request_user login_url =
     (if is_authenticated request_user then Inl PermissionDenied
      else Inr (HttpResponseRedirect (Login login_url)))"

definition LoginRequiredMixin_dispatch ::
  "db \<Rightarrow> request_user \<Rightarrow> string option \<Rightarrow> outcome \<Rightarrow> outcome" where
  "LoginRequiredMixin_dispatch d request_user login_url super_dispatch =
     (if \<not> is_authenticated request_user then (handle_no_permission request_user login_url, d)
      else super_dispatch)"

text \<open>
  \<^verbatim>\<open>Model.save\<close>: an instance without a primary key is inserted under a fresh one, an
  instance with a primary key overwrites the row that has it.
\<close>

definition next_pk :: "nat list \<Rightarrow> nat" where
  "next_pk pks = Suc (fold max pks 0)"

definition update_row :: "('a \<Rightarrow> nat) \<Rightarrow> 'a \<Rightarrow> 'a list \<Rightarrow> 'a list" where
  "update_row pk_of inst rows = map (\<lambda>r. if pk_of r = pk_of inst then inst else r) rows"

definition delete_row :: "('a \<Rightarrow> nat) \<Rightarrow> 'a \<Rightarrow> 'a list \<Rightarrow> 'a list" where
  "delete_row pk_of obj rows = filter (\<lambda>r. pk_of r \<noteq> pk_of obj) rows"

subsection \<open>PostCreateView\<close>

text \<open>
  \<^verbatim>\<open>form_valid\<close> makes the request's user the author, saves, and redirects to the
  author's profile. Assigning \<^verbatim>\<open>AnonymousUser\<close> to the foreign key raises
  \<^verbatim>\<open>ValueError\<close>.
\<close>

definition PostCreateView_form_valid :: "db \<Rightarrow> request_user \<Rightarrow> post \<Rightarrow> outcome" where
  "PostCreateView_form_valid d request_user instance =
     (case request_user of
        AnonymousUser \<Rightarrow> (Inl ValueError, d)
      | User u \<Rightarrow>
          (let obj = instance\<lparr>post_author_id := user_pk u,
                                post_pk := next_pk (map post_pk (posts d))\<rparr>
           in (Inr (HttpResponseRedirect (Profile (username u))),
               d\<lparr>posts := posts d @ [obj]\<rparr>)))"

definition PostCreateView_dispatch ::
  "db \<Rightarrow> request_user \<Rightarrow> post option http_method \<Rightarrow> outcome" where
  "PostCreateView_dispatch d request_user method =
     LoginRequiredMixin_dispatch d request_user (Some ''/login/'')
       (case method of
          GET \<Rightarrow> (Inr (TemplateResponse ''blog/create.html''), d)
        | POST None \<Rightarrow> (Inr (TemplateResponse ''blog/create.html''), d)
        | POST (Some instance) \<Rightarrow> PostCreateView_form_valid d request_user instance)"

subsection \<open>PostUpdateView\<close>

text \<open>
  The view keeps the default \<^verbatim>\<open>get_object\<close>, which reads the URL argument \<^verbatim>\<open>pk\<close>.
  \<^verbatim>\<open>test_func\<close> fetches the post first and reads its author only for a signed-in user.
\<close>

definition PostUpdateView_get_object :: "db \<Rightarrow> nat \<Rightarrow> error + post" where
  "PostUpdateView_get_object d pk = get_object_or_404 (\<lambda>p. post_pk p = pk) (posts d)"

definition PostUpdateView_test_func :: "db \<Rightarrow> request_user \<Rightarrow> nat \<Rightarrow> error + bool" where
  "PostUpdateView_test_func d request_user pk =
     (case PostUpdateView_get_object d pk of
        Inl e \<Rightarrow> Inl e
      | Inr obj \<Rightarrow>
          if \<not> is_authenticated request_user then Inr False
          else
            (case post_author d obj of
               Inl e \<Rightarrow> Inl e
             | Inr author \<Rightarrow> Inr (user_eq author request_user)))"

text \<open>
  \<^verbatim>\<open>UpdateView\<close>: both handlers fetch the object again; a valid form is saved over the
  row of the object and the view redirects to \<^verbatim>\<open>get_success_url()\<close>.
\<close>

definition UpdateView_post_dispatch :: "db \<Rightarrow> post option http_method \<Rightarrow> nat \<Rightarrow> outcome" where
  "UpdateView_post_dispatch d method pk =
     (case PostUpdateView_get_object d pk of
        Inl e \<Rightarrow> (Inl e, d)
      | Inr obj \<Rightarrow>
          (case method of
             GET \<Rightarrow> (Inr (TemplateResponse ''blog/create.html''), d)
           | POST None \<Rightarrow> (Inr (TemplateResponse ''blog/create.html''), d)
           | POST (Some instance) \<Rightarrow>
               (Inr (HttpResponseRedirect (PostDetail (post_pk obj))),
                d\<lparr>posts := update_row post_pk (instance\<lparr>post_pk := post_pk obj\<rparr>) (posts d)\<rparr>)))"

definition PostUpdateView_dispatch ::
  "db \<Rightarrow> request_user \<Rightarrow> post option http_method \<Rightarrow> nat \<Rightarrow> outcome" where
  "PostUpdateView_dispatch d request_user method pk =
     (case PostUpdateView_test_func d request_user pk of
        Inl e \<Rightarrow> (Inl e, d)
      | Inr allowed \<Rightarrow>
          if \<not> allowed then (Inr (HttpResponseRedirect (PostDetail pk)), d)
          else UpdateView_post_dispatch d method pk)"

subsection \<open>PostDeleteView\<close>

text \<open>
  \<^verbatim>\<open>get_queryset\<close> narrows the posts to those of the request's user; filtering on
  \<^verbatim>\<open>AnonymousUser\<close> raises \<^verbatim>\<open>TypeError\<close>. Deleting a post deletes the comments that
  reference it.
\<close>

definition PostDeleteView_get_queryset :: "db \<Rightarrow> request_user \<Rightarrow> error + post list" where
  "PostDeleteView_get_queryset d request_user =
     (case request_user of
        AnonymousUser \<Rightarrow> Inl TypeError
      | User u \<Rightarrow> Inr (filter (\<lambda>p. post_author_id p = user_pk u) (posts d)))"

definition PostDeleteView_get_object :: "db \<Rightarrow> request_user \<Rightarrow> nat \<Rightarrow> error + post" where
  "PostDeleteView_get_object d request_user post_id =
     (case PostDeleteView_get_queryset d request_user of
        Inl e \<Rightarrow> Inl e
      | Inr qs \<Rightarrow> get_object_or_404 (\<lambda>p. post_pk p = post_id) qs)"

definition delete_post :: "db \<Rightarrow> post \<Rightarrow> db" where
  "delete_post d obj =
     d\<lparr>posts := delete_row post_pk obj (posts d),
       comments := filter (\<lambda>c. comment_post_id c \<noteq> post_pk obj) (comments d)\<rparr>"

definition PostDeleteView_dispatch ::
  "db \<Rightarrow> request_user \<Rightarrow> unit http_method \<Rightarrow> nat \<Rightarrow> outcome" where
  "PostDeleteView_dispatch d request_user method post_id =
     LoginRequiredMixin_dispatch d request_user None
       (case PostDeleteView_get_object d request_user post_id of
          Inl e \<Rightarrow> (Inl e, d)
        | Inr obj \<Rightarrow>
            (case method of
               GET \<Rightarrow> (Inr (TemplateResponse ''blog/create.html''), d)
             | POST u \<Rightarrow> (Inr (HttpResponseRedirect Index), delete_post d obj)))"

subsection \<open>EditProfileView\<close>

text \<open>\<^verbatim>\<open>get_object\<close> is the request's user, whatever the URL says.\<close>

definition EditProfileView_dispatch ::
  "db \<Rightarrow> request_user \<Rightarrow> user option http_method \<Rightarrow> outcome" where
  "EditProfileView_dispatch d request_user method =
     LoginRequiredMixin_dispatch d request_user None
       (case request_user of
          AnonymousUser \<Rightarrow> (Inl AttributeError, d)
        | User obj \<Rightarrow>
            (case method of
               GET \<Rightarrow> (Inr (TemplateResponse ''blog/user.html''), d)
             | POST None \<Rightarrow> (Inr (TemplateResponse ''blog/user.html''), d)
             | POST (Some instance) \<Rightarrow>
                 (Inr (HttpResponseRedirect (Profile (username instance))),
                  d\<lparr>users := update_row user_pk (instance\<lparr>user_pk := user_pk obj\<rparr>) (users d)\<rparr>)))"

subsection \<open>AddCommentView\<close>

definition AddCommentView_form_valid :: "db \<Rightarrow> request_user \<Rightarrow> comment \<Rightarrow> nat \<Rightarrow> outcome" where
  "AddCommentView_form_valid d request_user instance post_id =
     (case get_object_or_404 (\<lambda>p. post_pk p = post_id) (posts d) of
        Inl e \<Rightarrow> (Inl e, d)
      | Inr post \<Rightarrow>
          (case request_user of
             AnonymousUser \<Rightarrow> (Inl ValueError, d)
           | User u \<Rightarrow>
               (let obj = instance\<lparr>comment_post_id := post_pk post,
                                     comment_author_id := user_pk u,
                                     comment_pk := next_pk (map comment_pk (comments d))\<rparr>
                in (Inr (HttpResponseRedirect (PostDetail post_id)),
                    d\<lparr>comments := comments d @ [obj]\<rparr>))))"

definition AddCommentView_dispatch ::
  "db \<Rightarrow> request_user \<Rightarrow> comment option http_method \<Rightarrow> nat \<Rightarrow> outcome" where
  "AddCommentView_dispatch d request_user method post_id =
     LoginRequiredMixin_dispatch d request_user None
       (case method of
          GET \<Rightarrow> (Inr (TemplateResponse ''comments.html''), d)
        | POST None \<Rightarrow> (Inr (TemplateResponse ''comments.html''), d)
        | POST (Some instance) \<Rightarrow> AddCommentView_form_valid d request_user instance post_id)"

subsection \<open>EditCommentView\<close>

text \<open>
  \<^verbatim>\<open>dispatch\<close> of the view runs before that of \<^verbatim>\<open>LoginRequiredMixin\<close>: it fetches the
  comment, compares its author with the request's user, and only then calls
  \<^verbatim>\<open>super().dispatch\<close>.
\<close>

definition EditCommentView_get_object :: "db \<Rightarrow> nat \<Rightarrow> error + comment" where
  "EditCommentView_get_object d comment_id =
     get_object_or_404 (\<lambda>c. comment_pk c = comment_id) (comments d)"

definition UpdateView_comment_dispatch ::
  "db \<Rightarrow> comment option http_method \<Rightarrow> nat \<Rightarrow> outcome" where
  "UpdateView_comment_dispatch d method comment_id =
     (case EditCommentView_get_object d comment_id of
        Inl e \<Rightarrow> (Inl e, d)
      | Inr obj \<Rightarrow>
          (case method of
             GET \<Rightarrow> (Inr (TemplateResponse ''blog/comment.html''), d)
           | POST None \<Rightarrow> (Inr (TemplateResponse ''blog/comment.html''), d)
           | POST (Some instance) \<Rightarrow>
               (Inr (HttpResponseRedirect Index),
                d\<lparr>comments :=
                     update_row comment_pk (instance\<lparr>comment_pk := comment_pk obj\<rparr>) (comments d)\<rparr>)))"

definition EditCommentView_dispatch ::
  "db \<Rightarrow> request_user \<Rightarrow> comment option http_method \<Rightarrow> nat \<Rightarrow> outcome" where
  "EditCommentView_dispatch d request_user method comment_id =
     (case EditCommentView_get_object d comment_id of
        Inl e \<Rightarrow> (Inl e, d)
      | Inr obj \<Rightarrow>
          (case comment_author d obj of
             Inl e \<Rightarrow> (Inl e, d)
           | Inr author \<Rightarrow>
               if \<not> user_eq author request_user then (Inl PermissionDenied, d)
               else LoginRequiredMixin_dispatch d request_user None
                      (UpdateView_comment_dispatch d method comment_id)))"

subsection \<open>DeleteCommentView\<close>

text \<open>
  The default \<^verbatim>\<open>get_object\<close> with \<^verbatim>\<open>pk_url_kwarg = 'comment_id'\<close>. \<^verbatim>\<open>post\<close> calls
  \<^verbatim>\<open>delete\<close>, which fetches the object again, deletes it and redirects to the page of
  the post named in the URL.
\<close>

definition DeleteCommentView_get_object :: "db \<Rightarrow> nat \<Rightarrow> error + comment" where
  "DeleteCommentView_get_object d comment_id =
     get_object_or_404 (\<lambda>c. comment_pk c = comment_id) (comments d)"

definition DeleteView_comment_dispatch ::
  "db \<Rightarrow> unit http_method \<Rightarrow> nat \<Rightarrow> nat \<Rightarrow> outcome" where
  "DeleteView_comment_dispatch d method post_id comment_id =
     (case DeleteCommentView_get_object d comment_id of
        Inl e \<Rightarrow> (Inl e, d)
      | Inr obj \<Rightarrow>
          (case method of
             GET \<Rightarrow> (Inr (TemplateResponse ''blog/comment.html''), d)
           | POST u \<Rightarrow>
               (Inr (HttpResponseRedirect (PostDetail post_id)),
                d\<lparr>comments := delete_row comment_pk obj (comments d)\<rparr>)))"

definition DeleteCommentView_dispatch ::
  "db \<Rightarrow> request_user \<Rightarrow> unit http_method \<Rightarrow> nat \<Rightarrow> nat \<Rightarrow> outcome" where
  "DeleteCommentView_dispatch d request_user method post_id comment_id =
     (case DeleteCommentView_get_object d comment_id of
        Inl e \<Rightarrow> (Inl e, d)
      | Inr obj \<Rightarrow>
          (case comment_author d obj of
             Inl e \<Rightarrow> (Inl e, d)
           | Inr author \<Rightarrow>
               if \<not> user_eq author request_user then (Inl PermissionDenied, d)
               else LoginRequiredMixin_dispatch d request_user None
                      (DeleteView_comment_dispatch d method post_id comment_id)))"

subsection \<open>Integrity of the stored data\<close>

text \<open>
  What the database enforces on every state the views can meet: primary keys, usernames
  and slugs are unique, and every foreign key names a stored row.
\<close>

definition wf_db :: "db \<Rightarrow> bool" where
  "wf_db d =
     (distinct (map user_pk (users d)) \<and>
      distinct (map username (users d)) \<and>
      distinct (map category_pk (categories d)) \<and>
      distinct (map category_slug (categories d)) \<and>
      distinct (map post_pk (posts d)) \<and>
      distinct (map comment_pk (comments d)) \<and>
      list_all (\<lambda>p. list_ex (\<lambda>u. user_pk u = post_author_id p) (users d) \<and>
                    list_ex (\<lambda>c. category_pk c = post_category_id p) (categories d)) (posts d) \<and>
      list_all (\<lambda>c. list_ex (\<lambda>u. user_pk u = comment_author_id c) (users d) \<and>
                    list_ex (\<lambda>p. post_pk p = comment_post_id c) (posts d)) (comments d))"

subsection \<open>The permission contract of the specification\<close>

text \<open>
  Section 4.2 of the specification states one contract for posts and comments:
  \<^verbatim>\<open>can_modify(entity, actor)\<close> is true iff \<^verbatim>\<open>actor.is_authenticated AND
  entity.author == actor\<close>. It is written here on the entity's author, to be compared
  with the checks that the views make.
\<close>

definition can_modify :: "user \<Rightarrow> request_user \<Rightarrow> bool" where
  "can_modify author actor = (is_authenticated actor \<and> user_eq author actor)"

subsection \<open>The category feed with the publication test applied once\<close>

text \<open>
  The query of \<^verbatim>\<open>CategoryPostsView.get_queryset\<close> without its last line, the repeated
  \<^verbatim>\<open>filter(category__is_published=True)\<close>: the category's publication is tested only
  where the category is fetched.
\<close>

definition CategoryPostsView_get_queryset_once ::
  "db \<Rightarrow> int \<Rightarrow> string \<Rightarrow> error + annotated_post list" where
  "CategoryPostsView_get_queryset_once d now category_slug_kw =
     (case get_object_or_404
             (\<lambda>c. category_slug c = category_slug_kw \<and> category_is_published c) (categories d) of
        Inl e \<Rightarrow> Inl e
      | Inr cat \<Rightarrow>
          Inr (annotate d
                 (order_by_pub_date_desc (\<lambda>p. p)
                    (filter (\<lambda>p. post_is_published p \<and> post_pub_date p \<le> now
                               \<and> post_category_id p = category_pk cat)
                       (posts d)))))"

subsection \<open>A small database\<close>

text \<open>
  Two users, a published and an unpublished category, and five posts: a public one, one
  in the unpublished category, one dated after time 50, a draft, and a second public
  one. Three comments, two of them on the first post.
\<close>

definition alice :: user where
  "alice = \<lparr>user_pk = 1, username = ''alice'', email = ''alice@example.org''\<rparr>"

definition bob :: user where
  "bob = \<lparr>user_pk = 2, username = ''bob'', email = ''bob@example.org''\<rparr>"

definition travel :: category where
  "travel = \<lparr>category_pk = 1, category_title = ''Travel'', category_slug = ''travel'',
             category_is_published = True\<rparr>"

definition hidden :: category where
  "hidden = \<lparr>category_pk = 2, category_title = ''Hidden'', category_slug = ''hidden'',
             category_is_published = False\<rparr>"

definition post1 :: post where
  "post1 = \<lparr>post_pk = 1, post_title = ''First'', post_text = ''a'', post_author_id = 1,
            post_category_id = 1, post_location_id = None, post_pub_date = 10,
            post_is_published = True, post_created_at = 5\<rparr>"

definition post2 :: post where
  "post2 = \<lparr>post_pk = 2, post_title = ''Second'', post_text = ''b'', post_author_id = 1,
            post_category_id = 2, post_location_id = None, post_pub_date = 20,
            post_is_published = True, post_created_at = 6\<rparr>"

definition post3 :: post where
  "post3 = \<lparr>post_pk = 3, post_title = ''Third'', post_text = ''c'', post_author_id = 2,
            post_category_id = 1, post_location_id = Some 7, post_pub_date = 100,
            post_is_published = True, post_created_at = 7\<rparr>"

definition post4 :: post where
  "post4 = \<lparr>post_pk = 4, post_title = ''Fourth'', post_text = ''d'', post_author_id = 1,
            post_category_id = 1, post_location_id = None, post_pub_date = 30,
            post_is_published = False, post_created_at = 8\<rparr>"

definition post5 :: post where
  "post5 = \<lparr>post_pk = 5, post_title = ''Fifth'', post_text = ''e'', post_author_id = 2,
            post_category_id = 1, post_location_id = None, post_pub_date = 40,
            post_is_published = True, post_created_at = 9\<rparr>"

definition comment1 :: comment where
  "comment1 = \<lparr>comment_pk = 1, comment_post_id = 1, comment_author_id = 2,
               comment_text = ''x'', comment_created_at = 11\<rparr>"

definition comment2 :: comment where
  "comment2 = \<lparr>comment_pk = 2, comment_post_id = 1, comment_author_id = 1,
               comment_text = ''y'', comment_created_at = 12\<rparr>"

definition comment3 :: comment where
  "comment3 = \<lparr>comment_pk = 3, comment_post_id = 5, comment_author_id = 1,
               comment_text = ''z'', comment_created_at = 41\<rparr>"

definition blog_db :: db where
  "blog_db = \<lparr>users = [alice, bob], categories = [travel, hidden],
              posts = [post1, post2, post3, post4, post5],
              comments = [comment1, comment2, comment3]\<rparr>"

section \<open>Properties\<close>

subsection \<open>Fetching rows\<close>

lemma filter_pk_unique:
  "distinct (map f xs) \<Longrightarrow> x \<in> set xs \<Longrightarrow> filter (\<lambda>y. f y = f x) xs = [x]"
proof (induction xs)
  case Nil
  then show ?case by simp
next
  case (Cons a xs)
  show ?case
  proof (cases "x = a")
    case True
    have "f a \<notin> f ` set xs" using Cons.prems(1) by simp
    then have "filter (\<lambda>y. f y = f a) xs = []"
      by (force simp: filter_empty_conv image_iff)
    with True show ?thesis by simp
  next
    case False
    with Cons.prems have xin: "x \<in> set xs" by simp
    then have "f a \<noteq> f x" using Cons.prems(1) by auto
    with Cons.IH Cons.prems(1) xin show ?thesis by simp
  qed
qed

lemma pk_unique:
  "distinct (map f xs) \<Longrightarrow> x \<in> set xs \<Longrightarrow> y \<in> set xs \<Longrightarrow> f x = f y \<Longrightarrow> x = y"
  by (auto simp: distinct_map dest: inj_onD)

lemma queryset_get_pk:
  "distinct (map f xs) \<Longrightarrow> x \<in> set xs \<Longrightarrow> queryset_get (\<lambda>y. f y = f x) xs = Inr x"
  by (simp add: queryset_get_def filter_pk_unique)

lemma queryset_get_fk:
  assumes "distinct (map f xs)" and "list_ex (\<lambda>y. f y = k) xs"
  shows "\<exists>x\<in>set xs. f x = k \<and> queryset_get (\<lambda>y. f y = k) xs = Inr x"
proof -
  from assms(2) obtain x where x: "x \<in> set xs" "f x = k"
    by (auto simp: list_ex_iff)
  with queryset_get_pk[OF assms(1) x(1)] show ?thesis by auto
qed

lemma queryset_get_Inr:
  assumes "queryset_get cond xs = Inr x"
  shows "x \<in> set xs \<and> cond x"
proof -
  from assms have "filter cond xs = [x]"
    by (auto simp: queryset_get_def split: list.splits)
  then have "x \<in> set (filter cond xs)" by simp
  then show ?thesis by simp
qed

lemma queryset_get_none:
  "\<forall>x\<in>set xs. \<not> cond x \<Longrightarrow> queryset_get cond xs = Inl DoesNotExist"
  by (simp add: queryset_get_def filter_empty_conv[THEN iffD2])

lemma get_object_or_404_pk:
  "distinct (map f xs) \<Longrightarrow> x \<in> set xs \<Longrightarrow> get_object_or_404 (\<lambda>y. f y = f x) xs = Inr x"
  by (simp add: get_object_or_404_def queryset_get_pk)

lemma get_object_or_404_none:
  "\<forall>x\<in>set xs. \<not> cond x \<Longrightarrow> get_object_or_404 cond xs = Inl Http404"
  by (simp add: get_object_or_404_def queryset_get_none)

lemma get_object_or_404_Inr:
  "get_object_or_404 cond xs = Inr x \<Longrightarrow> x \<in> set xs \<and> cond x"
  by (auto simp: get_object_or_404_def split: sum.splits if_splits dest: queryset_get_Inr)

subsection \<open>Consequences of integrity\<close>

lemma wf_post_author:
  assumes "wf_db d" "P \<in> set (posts d)"
  shows "\<exists>a\<in>set (users d). user_pk a = post_author_id P \<and> post_author d P = Inr a"
proof -
  from assms have "list_ex (\<lambda>u. user_pk u = post_author_id P) (users d)"
    by (auto simp: wf_db_def list_all_iff)
  moreover from assms have "distinct (map user_pk (users d))" by (simp add: wf_db_def)
  ultimately show ?thesis unfolding post_author_def by (rule queryset_get_fk[rotated])
qed

lemma wf_post_category:
  assumes "wf_db d" "P \<in> set (posts d)"
  shows "\<exists>c\<in>set (categories d). category_pk c = post_category_id P \<and> post_category d P = Inr c"
proof -
  from assms have "list_ex (\<lambda>c. category_pk c = post_category_id P) (categories d)"
    by (auto simp: wf_db_def list_all_iff)
  moreover from assms have "distinct (map category_pk (categories d))" by (simp add: wf_db_def)
  ultimately show ?thesis unfolding post_category_def by (rule queryset_get_fk[rotated])
qed

lemma wf_comment_author:
  assumes "wf_db d" "C \<in> set (comments d)"
  shows "\<exists>a\<in>set (users d). user_pk a = comment_author_id C \<and> comment_author d C = Inr a"
proof -
  from assms have "list_ex (\<lambda>u. user_pk u = comment_author_id C) (users d)"
    by (auto simp: wf_db_def list_all_iff)
  moreover from assms have "distinct (map user_pk (users d))" by (simp add: wf_db_def)
  ultimately show ?thesis unfolding comment_author_def by (rule queryset_get_fk[rotated])
qed

lemma wf_get_post:
  "wf_db d \<Longrightarrow> P \<in> set (posts d) \<Longrightarrow>
   get_object_or_404 (\<lambda>p. post_pk p = post_pk P) (posts d) = Inr P"
  by (simp add: wf_db_def get_object_or_404_pk)

lemma wf_get_comment:
  "wf_db d \<Longrightarrow> C \<in> set (comments d) \<Longrightarrow>
   get_object_or_404 (\<lambda>c. comment_pk c = comment_pk C) (comments d) = Inr C"
  by (simp add: wf_db_def get_object_or_404_pk)

lemma get_published_category:
  assumes "wf_db d" and "c \<in> set (categories d)" and "category_is_published c"
  shows "get_object_or_404 (\<lambda>x. category_slug x = category_slug c \<and> category_is_published x)
           (categories d) = Inr c"
proof -
  from assms(1) have "distinct (map category_slug (categories d))" by (simp add: wf_db_def)
  from filter_pk_unique[OF this assms(2)]
  have "filter category_is_published
          (filter (\<lambda>x. category_slug x = category_slug c) (categories d)) = [c]"
    using assms(3) by simp
  then have "filter (\<lambda>x. category_slug x = category_slug c \<and> category_is_published x)
               (categories d) = [c]"
    by (simp add: conj_commute)
  then show ?thesis by (simp add: get_object_or_404_def queryset_get_def)
qed

lemma get_own_post:
  assumes "wf_db d" and "P \<in> set (posts d)"
  shows "get_object_or_404 (\<lambda>p. post_pk p = post_pk P)
           (filter (\<lambda>p. post_author_id p = k) (posts d)) =
         (if post_author_id P = k then Inr P else Inl Http404)"
proof (cases "post_author_id P = k")
  case True
  from assms(1) have "distinct (map post_pk (posts d))" by (simp add: wf_db_def)
  then have "distinct (map post_pk (filter (\<lambda>p. post_author_id p = k) (posts d)))"
    by (rule distinct_map_filter)
  moreover from True assms(2) have "P \<in> set (filter (\<lambda>p. post_author_id p = k) (posts d))"
    by simp
  ultimately show ?thesis using True by (simp add: get_object_or_404_pk)
next
  case False
  from assms(1) have dist: "distinct (map post_pk (posts d))" by (simp add: wf_db_def)
  have "\<forall>x\<in>set (filter (\<lambda>p. post_author_id p = k) (posts d)). \<not> post_pk x = post_pk P"
  proof
    fix x assume "x \<in> set (filter (\<lambda>p. post_author_id p = k) (posts d))"
    then have x: "x \<in> set (posts d)" "post_author_id x = k" by simp_all
    show "\<not> post_pk x = post_pk P"
    proof
      assume "post_pk x = post_pk P"
      from pk_unique[OF dist x(1) assms(2) this] x(2) False show False by simp
    qed
  qed
  from get_object_or_404_none[OF this] False show ?thesis by simp
qed

subsection \<open>Query building blocks\<close>

lemma map_row_annotate: "map row (annotate d ps) = ps"
  by (simp add: annotate_def comp_def)

lemma row_in_annotate: "r \<in> set (annotate d ps) \<Longrightarrow> row r \<in> set ps"
  by (auto simp: annotate_def)

lemma annotate_comment_count:
  "r \<in> set (annotate d ps) \<Longrightarrow> comment_count r = Count_comments d (row r)"
  by (auto simp: annotate_def)

lemma set_order_by: "set (order_by_pub_date_desc g rs) = set rs"
  by (simp add: order_by_pub_date_desc_def)

lemma mset_order_by: "mset (order_by_pub_date_desc g rs) = mset rs"
  by (simp add: order_by_pub_date_desc_def)

lemma sorted_order_by:
  "sorted_wrt (\<lambda>a b. post_pub_date (g b) \<le> post_pub_date (g a)) (order_by_pub_date_desc g rs)"
proof -
  have "sorted (map (\<lambda>r. - post_pub_date (g r)) (order_by_pub_date_desc g rs))"
    unfolding order_by_pub_date_desc_def by (rule sorted_sort_key)
  then show ?thesis by (simp add: sorted_map)
qed

lemma sorted_annotate:
  "sorted_wrt (\<lambda>a b. post_pub_date b \<le> post_pub_date a) ps \<Longrightarrow>
   sorted_wrt (\<lambda>a b. post_pub_date (row b) \<le> post_pub_date (row a)) (annotate d ps)"
  by (simp add: annotate_def sorted_wrt_map)

lemma category__is_published_iff:
  "category__is_published d p \<longleftrightarrow>
   (\<exists>c\<in>set (categories d). category_pk c = post_category_id p \<and> category_is_published c)"
  by (simp add: category__is_published_def list_ex_iff)

lemma category_filter_redundant:
  assumes "cat \<in> set (categories d)" and "category_is_published cat"
  shows "filter (\<lambda>r. category__is_published d (row r))
           (annotate d
              (order_by_pub_date_desc (\<lambda>p. p)
                 (filter (\<lambda>p. post_is_published p \<and> post_pub_date p \<le> now
                            \<and> post_category_id p = category_pk cat) (posts d)))) =
         annotate d
              (order_by_pub_date_desc (\<lambda>p. p)
                 (filter (\<lambda>p. post_is_published p \<and> post_pub_date p \<le> now
                            \<and> post_category_id p = category_pk cat) (posts d)))"
proof -
  have "\<forall>r\<in>set (annotate d
              (order_by_pub_date_desc (\<lambda>p. p)
                 (filter (\<lambda>p. post_is_published p \<and> post_pub_date p \<le> now
                            \<and> post_category_id p = category_pk cat) (posts d)))).
          category__is_published d (row r)"
  proof
    fix r
    assume "r \<in> set (annotate d
              (order_by_pub_date_desc (\<lambda>p. p)
                 (filter (\<lambda>p. post_is_published p \<and> post_pub_date p \<le> now
                            \<and> post_category_id p = category_pk cat) (posts d))))"
    then have "row r \<in> set (order_by_pub_date_desc (\<lambda>p. p)
                 (filter (\<lambda>p. post_is_published p \<and> post_pub_date p \<le> now
                            \<and> post_category_id p = category_pk cat) (posts d)))"
      by (rule row_in_annotate)
    then have "post_category_id (row r) = category_pk cat"
      by (simp add: set_order_by)
    with assms show "category__is_published d (row r)"
      by (auto simp: category__is_published_iff)
  qed
  then show ?thesis by (simp add: filter_id_conv)
qed

subsection \<open>The views that change data, on a database with integrity\<close>

lemma user_eq_authenticated: "user_eq a A \<Longrightarrow> is_authenticated A"
  by (cases A) simp_all

lemma test_func_wf:
  assumes "wf_db d" and "P \<in> set (posts d)" and "post_author d P = Inr a"
  shows "PostUpdateView_test_func d A (post_pk P) = Inr (can_modify a A)"
  using assms
  by (simp add: PostUpdateView_test_func_def PostUpdateView_get_object_def wf_get_post
      can_modify_def)

lemma post_update_wf:
  assumes "wf_db d" and "P \<in> set (posts d)" and "post_author d P = Inr a"
  shows "PostUpdateView_dispatch d A m (post_pk P) =
           (if can_modify a A then UpdateView_post_dispatch d m (post_pk P)
            else (Inr (HttpResponseRedirect (PostDetail (post_pk P))), d))"
  by (simp add: PostUpdateView_dispatch_def test_func_wf[OF assms])

lemma post_delete_wf:
  assumes "wf_db d" and "P \<in> set (posts d)" and "post_author d P = Inr a"
  shows "PostDeleteView_dispatch d A m (post_pk P) =
           (if can_modify a A then
              (case m of
                 GET \<Rightarrow> (Inr (TemplateResponse ''blog/create.html''), d)
               | POST u \<Rightarrow> (Inr (HttpResponseRedirect Index), delete_post d P))
            else if is_authenticated A then (Inl Http404, d)
            else (Inr (HttpResponseRedirect (Login None)), d))"
proof (cases A)
  case AnonymousUser
  then show ?thesis
    by (simp add: PostDeleteView_dispatch_def LoginRequiredMixin_dispatch_def
        handle_no_permission_def can_modify_def)
next
  case (User u)
  from wf_post_author[OF assms(1,2)] assms(3) have a: "user_pk a = post_author_id P" by auto
  show ?thesis
    using User a
    by (simp add: PostDeleteView_dispatch_def LoginRequiredMixin_dispatch_def
        PostDeleteView_get_object_def PostDeleteView_get_queryset_def
        get_own_post[OF assms(1,2)] can_modify_def)
qed

lemma comment_edit_wf:
  assumes "wf_db d" and "C \<in> set (comments d)" and "comment_author d C = Inr a"
  shows "EditCommentView_dispatch d A m (comment_pk C) =
           (if can_modify a A then UpdateView_comment_dispatch d m (comment_pk C)
            else (Inl PermissionDenied, d))"
  using assms
  by (auto simp: EditCommentView_dispatch_def EditCommentView_get_object_def wf_get_comment
      LoginRequiredMixin_dispatch_def can_modify_def dest: user_eq_authenticated)

lemma comment_delete_wf:
  assumes "wf_db d" and "C \<in> set (comments d)" and "comment_author d C = Inr a"
  shows "DeleteCommentView_dispatch d A m pid (comment_pk C) =
           (if can_modify a A then DeleteView_comment_dispatch d m pid (comment_pk C)
            else (Inl PermissionDenied, d))"
  using assms
  by (auto simp: DeleteCommentView_dispatch_def DeleteCommentView_get_object_def wf_get_comment
      LoginRequiredMixin_dispatch_def can_modify_def dest: user_eq_authenticated)

subsection \<open>The small database\<close>

lemma post_fields:
  "post_pk post1 = 1" "post_pk post2 = 2" "post_pk post3 = 3" "post_pk post4 = 4" "post_pk post5 = 5"
  "post_author_id post1 = 1" "post_author_id post2 = 1" "post_author_id post3 = 2"
  "post_author_id post4 = 1" "post_author_id post5 = 2"
  "post_category_id post1 = 1" "post_category_id post2 = 2" "post_category_id post3 = 1"
  "post_category_id post4 = 1" "post_category_id post5 = 1"
  "post_pub_date post1 = 10" "post_pub_date post2 = 20" "post_pub_date post3 = 100"
  "post_pub_date post4 = 30" "post_pub_date post5 = 40"
  "post_is_published post1" "post_is_published post2" "post_is_published post3"
  "\<not> post_is_published post4" "post_is_published post5"
  by (simp_all add: post1_def post2_def post3_def post4_def post5_def)

lemma other_fields:
  "user_pk alice = 1" "user_pk bob = 2" "username alice = ''alice''" "username bob = ''bob''"
  "category_pk travel = 1" "category_pk hidden = 2"
  "category_slug travel = ''travel''" "category_slug hidden = ''hidden''"
  "category_is_published travel" "\<not> category_is_published hidden"
  "comment_pk comment1 = 1" "comment_pk comment2 = 2" "comment_pk comment3 = 3"
  "comment_post_id comment1 = 1" "comment_post_id comment2 = 1" "comment_post_id comment3 = 5"
  "comment_author_id comment1 = 2" "comment_author_id comment2 = 1" "comment_author_id comment3 = 1"
  by (simp_all add: alice_def bob_def travel_def hidden_def comment1_def comment2_def comment3_def)

lemma db_tables:
  "users blog_db = [alice, bob]" "categories blog_db = [travel, hidden]"
  "posts blog_db = [post1, post2, post3, post4, post5]"
  "comments blog_db = [comment1, comment2, comment3]"
  by (simp_all add: blog_db_def)

lemmas blog_db_fields = post_fields other_fields db_tables

lemmas view_defs =
  queryset_get_def get_object_or_404_def post_author_def post_category_def comment_author_def
  category__is_published_def Count_comments_def annotate_def order_by_pub_date_desc_def

lemma wf_blog_db: "wf_db blog_db"
  by (simp add: wf_db_def blog_db_fields)

lemma blog_lookups:
  "post_author blog_db post1 = Inr alice"
  "comment_author blog_db comment1 = Inr bob"
  by (simp_all add: post_author_def comment_author_def queryset_get_def blog_db_fields)

lemma blog_members:
  "post1 \<in> set (posts blog_db)" "post2 \<in> set (posts blog_db)" "post3 \<in> set (posts blog_db)"
  "comment1 \<in> set (comments blog_db)"
  "alice \<in> set (users blog_db)" "travel \<in> set (categories blog_db)"
  by (simp_all add: blog_db_fields)

text \<open>
  The author's own edit is saved: the views below are not the identity on the database.
\<close>

lemma author_edit_is_saved:
  "PostUpdateView_dispatch blog_db (User alice) (POST (Some post4)) 1 =
     (Inr (HttpResponseRedirect (PostDetail 1)),
      blog_db\<lparr>posts := [post4\<lparr>post_pk := 1\<rparr>, post2, post3, post4, post5]\<rparr>)"
  by (simp add: PostUpdateView_dispatch_def PostUpdateView_test_func_def
      PostUpdateView_get_object_def UpdateView_post_dispatch_def update_row_def
      get_object_or_404_def queryset_get_def post_author_def blog_db_fields)

section \<open>The claims\<close>

subsection \<open>C1: who may see a post\<close>

text \<open>
  Claim C1. For every stored post \<open>P\<close> and every viewer \<open>V\<close>, the detail view returns
  \<open>P\<close> exactly when \<open>V\<close> is the author of \<open>P\<close>, or \<open>P\<close> is published, its category is
  published and its publication date is not after the current time; in every other case,
  the anonymous viewer included, it raises \<^verbatim>\<open>Http404\<close>.
\<close>

theorem post_detail_visible_iff:
  assumes "wf_db d" and "P \<in> set (posts d)"
  shows "\<exists>author cat. post_author d P = Inr author \<and> post_category d P = Inr cat \<and>
           PostDetailView_get_object d V now (post_pk P) =
             (if user_eq author V \<or>
                 (post_is_published P \<and> category_is_published cat \<and> post_pub_date P \<le> now)
              then Inr P else Inl Http404)"
proof -
  from wf_post_author[OF assms] obtain a where a: "post_author d P = Inr a" by blast
  from wf_post_category[OF assms] obtain c where c: "post_category d P = Inr c" by blast
  have "PostDetailView_get_object d V now (post_pk P) =
             (if user_eq a V \<or>
                 (post_is_published P \<and> category_is_published c \<and> post_pub_date P \<le> now)
              then Inr P else Inl Http404)"
    by (simp add: PostDetailView_get_object_def wf_get_post[OF assms] a c)
  with a c show ?thesis by blast
qed

theorem post_detail_visible_iff_witness:
  "wf_db blog_db \<and> post2 \<in> set (posts blog_db) \<and>
   PostDetailView_get_object blog_db (User alice) 50 2 = Inr post2 \<and>
   PostDetailView_get_object blog_db (User bob) 50 2 = Inl Http404 \<and>
   PostDetailView_get_object blog_db AnonymousUser 50 1 = Inr post1 \<and>
   PostDetailView_get_object blog_db AnonymousUser 50 3 = Inl Http404"
  using post_detail_visible_iff[OF wf_blog_db blog_members(2), of "User alice" 50]
    post_detail_visible_iff[OF wf_blog_db blog_members(2), of "User bob" 50]
    post_detail_visible_iff[OF wf_blog_db blog_members(1), of AnonymousUser 50]
    post_detail_visible_iff[OF wf_blog_db blog_members(3), of AnonymousUser 50]
    wf_blog_db
  by (simp add: post_author_def post_category_def queryset_get_def blog_db_fields)

subsection \<open>C2: who may change a post or a comment\<close>

text \<open>
  Claim C2. For every stored post or comment \<open>E\<close> and every actor \<open>A\<close>, the views let
  \<open>A\<close> edit or delete \<open>E\<close> exactly when \<open>A\<close> is signed in and is the author of \<open>E\<close>, and
  the test is the same for posts and for comments: \<^verbatim>\<open>test_func\<close> of the post edit view
  returns the contract \<open>can_modify\<close> of the specification, and each of the four views
  hands the request to its generic edit or delete view when \<open>can_modify\<close> holds and to its
  denial otherwise.
\<close>

theorem modify_permission_author_only:
  assumes "wf_db d"
  shows "(\<forall>P\<in>set (posts d). \<exists>a. post_author d P = Inr a \<and>
            PostUpdateView_test_func d A (post_pk P) = Inr (can_modify a A) \<and>
            PostUpdateView_dispatch d A pm (post_pk P) =
              (if can_modify a A then UpdateView_post_dispatch d pm (post_pk P)
               else (Inr (HttpResponseRedirect (PostDetail (post_pk P))), d)) \<and>
            PostDeleteView_dispatch d A dm (post_pk P) =
              (if can_modify a A then
                 (case dm of
                    GET \<Rightarrow> (Inr (TemplateResponse ''blog/create.html''), d)
                  | POST u \<Rightarrow> (Inr (HttpResponseRedirect Index), delete_post d P))
               else if is_authenticated A then (Inl Http404, d)
               else (Inr (HttpResponseRedirect (Login None)), d))) \<and>
         (\<forall>C\<in>set (comments d). \<exists>a. comment_author d C = Inr a \<and>
            EditCommentView_dispatch d A cm (comment_pk C) =
              (if can_modify a A then UpdateView_comment_dispatch d cm (comment_pk C)
               else (Inl PermissionDenied, d)) \<and>
            DeleteCommentView_dispatch d A dm post_id (comment_pk C) =
              (if can_modify a A then DeleteView_comment_dispatch d dm post_id (comment_pk C)
               else (Inl PermissionDenied, d)))"
proof (intro conjI ballI)
  fix P assume P: "P \<in> set (posts d)"
  from wf_post_author[OF assms P] obtain a where a: "post_author d P = Inr a" by blast
  from a test_func_wf[OF assms P a] post_update_wf[OF assms P a] post_delete_wf[OF assms P a]
  show "\<exists>a. post_author d P = Inr a \<and>
            PostUpdateView_test_func d A (post_pk P) = Inr (can_modify a A) \<and>
            PostUpdateView_dispatch d A pm (post_pk P) =
              (if can_modify a A then UpdateView_post_dispatch d pm (post_pk P)
               else (Inr (HttpResponseRedirect (PostDetail (post_pk P))), d)) \<and>
            PostDeleteView_dispatch d A dm (post_pk P) =
              (if can_modify a A then
                 (case dm of
                    GET \<Rightarrow> (Inr (TemplateResponse ''blog/create.html''), d)
                  | POST u \<Rightarrow> (Inr (HttpResponseRedirect Index), delete_post d P))
               else if is_authenticated A then (Inl Http404, d)
               else (Inr (HttpResponseRedirect (Login None)), d))"
    by blast
next
  fix C assume C: "C \<in> set (comments d)"
  from wf_comment_author[OF assms C] obtain a where a: "comment_author d C = Inr a" by blast
  from a comment_edit_wf[OF assms C a] comment_delete_wf[OF assms C a]
  show "\<exists>a. comment_author d C = Inr a \<and>
            EditCommentView_dispatch d A cm (comment_pk C) =
              (if can_modify a A then UpdateView_comment_dispatch d cm (comment_pk C)
               else (Inl PermissionDenied, d)) \<and>
            DeleteCommentView_dispatch d A dm post_id (comment_pk C) =
              (if can_modify a A then DeleteView_comment_dispatch d dm post_id (comment_pk C)
               else (Inl PermissionDenied, d))"
    by blast
qed

theorem modify_permission_author_only_witness:
  "wf_db blog_db \<and> post1 \<in> set (posts blog_db) \<and> comment1 \<in> set (comments blog_db) \<and>
   PostUpdateView_test_func blog_db (User alice) 1 = Inr True \<and>
   PostUpdateView_test_func blog_db (User bob) 1 = Inr False \<and>
   PostUpdateView_test_func blog_db AnonymousUser 1 = Inr False \<and>
   EditCommentView_dispatch blog_db (User bob) GET 1 =
     UpdateView_comment_dispatch blog_db GET 1 \<and>
   EditCommentView_dispatch blog_db (User alice) GET 1 = (Inl PermissionDenied, blog_db) \<and>
   DeleteCommentView_dispatch blog_db AnonymousUser (POST ()) 1 1 = (Inl PermissionDenied, blog_db)"
proof -
  note p = modify_permission_author_only[OF wf_blog_db, THEN conjunct1, THEN bspec,
      OF blog_members(1)]
  note c = modify_permission_author_only[OF wf_blog_db, THEN conjunct2, THEN bspec,
      OF blog_members(4)]
  from p[of "User alice"] p[of "User bob"] p[of AnonymousUser]
    c[of "User bob" GET] c[of "User alice" GET] c[of AnonymousUser _ "POST ()" 1]
    wf_blog_db blog_members
  show ?thesis
    by (simp add: blog_lookups can_modify_def blog_db_fields)
qed

subsection \<open>C3: the global feed\<close>

text \<open>
  Claim C3. In every state of the database, every post of the global feed is a stored
  post that is published, whose category is published and whose publication date is not
  after the current time.
\<close>

theorem global_feed_published_only:
  "\<forall>r\<in>set (PostListView_get_queryset d now).
     row r \<in> set (posts d) \<and>
     post_is_published (row r) \<and>
     (\<exists>c\<in>set (categories d). category_pk c = post_category_id (row r) \<and> category_is_published c) \<and>
     post_pub_date (row r) \<le> now"
proof
  fix r
  assume "r \<in> set (PostListView_get_queryset d now)"
  then have "row r \<in> set (map row (PostListView_get_queryset d now))" by simp
  then have "row r \<in> set (filter (\<lambda>p. post_is_published p \<and> post_pub_date p \<le> now
                                     \<and> category__is_published d p) (posts d))"
    by (simp only: PostListView_get_queryset_def map_row_annotate set_order_by)
  then show "row r \<in> set (posts d) \<and>
     post_is_published (row r) \<and>
     (\<exists>c\<in>set (categories d). category_pk c = post_category_id (row r) \<and> category_is_published c) \<and>
     post_pub_date (row r) \<le> now"
    by (simp add: category__is_published_iff)
qed

theorem global_feed_published_only_witness:
  "PostListView_get_queryset blog_db 50 =
     [\<lparr>row = post5, comment_count = 1\<rparr>, \<lparr>row = post1, comment_count = 2\<rparr>] \<and>
   post5 \<in> set (posts blog_db) \<and> post_is_published post5 \<and>
   (\<exists>c\<in>set (categories blog_db).
      category_pk c = post_category_id post5 \<and> category_is_published c) \<and>
   post_pub_date post5 \<le> 50"
proof -
  have l: "PostListView_get_queryset blog_db 50 =
     [\<lparr>row = post5, comment_count = 1\<rparr>, \<lparr>row = post1, comment_count = 2\<rparr>]"
    by (simp add: PostListView_get_queryset_def view_defs blog_db_fields)
  then have m: "\<lparr>row = post5, comment_count = 1\<rparr> \<in> set (PostListView_get_queryset blog_db 50)"
    by simp
  from bspec[OF global_feed_published_only m] l show ?thesis by simp
qed

subsection \<open>C4: a post edited by somebody else\<close>

text \<open>
  Claim C4. For every stored post \<open>P\<close> and every actor \<open>B\<close> who is not the author of
  \<open>P\<close>, an attempt by \<open>B\<close> to edit \<open>P\<close> is answered with a redirect to the detail page
  of \<open>P\<close>, and the database is unchanged.
\<close>

theorem post_edit_denied_redirects:
  assumes "wf_db d" and "P \<in> set (posts d)"
    and "post_author d P = Inr a" and "\<not> user_eq a B"
  shows "PostUpdateView_dispatch d B m (post_pk P) =
           (Inr (HttpResponseRedirect (PostDetail (post_pk P))), d)"
  using assms(4) by (simp add: post_update_wf[OF assms(1-3)] can_modify_def)

theorem post_edit_denied_redirects_witness:
  "wf_db blog_db \<and> post1 \<in> set (posts blog_db) \<and> post_author blog_db post1 = Inr alice \<and>
   \<not> user_eq alice (User bob) \<and>
   PostUpdateView_dispatch blog_db (User bob) (POST (Some post2)) (post_pk post1) =
     (Inr (HttpResponseRedirect (PostDetail (post_pk post1))), blog_db)"
proof -
  have n: "\<not> user_eq alice (User bob)" by (simp add: blog_db_fields)
  from post_edit_denied_redirects[OF wf_blog_db blog_members(1) blog_lookups(1) n,
      of "POST (Some post2)"]
    wf_blog_db blog_members(1) blog_lookups(1) n
  show ?thesis by simp
qed

subsection \<open>C5: a comment changed by somebody else\<close>

text \<open>
  Claim C5. For every stored comment \<open>C\<close> and every actor \<open>B\<close> who is not the author of
  \<open>C\<close>, an attempt by \<open>B\<close> to edit or to delete \<open>C\<close> raises \<^verbatim>\<open>PermissionDenied\<close>, and
  the database is unchanged.
\<close>

theorem comment_change_denied_forbidden:
  assumes "wf_db d" and "C \<in> set (comments d)"
    and "comment_author d C = Inr a" and "\<not> user_eq a B"
  shows "EditCommentView_dispatch d B em (comment_pk C) = (Inl PermissionDenied, d) \<and>
         DeleteCommentView_dispatch d B dm post_id (comment_pk C) = (Inl PermissionDenied, d)"
  using assms(4)
  by (simp add: comment_edit_wf[OF assms(1-3)] comment_delete_wf[OF assms(1-3)] can_modify_def)

theorem comment_change_denied_forbidden_witness:
  "wf_db blog_db \<and> comment1 \<in> set (comments blog_db) \<and>
   comment_author blog_db comment1 = Inr bob \<and> \<not> user_eq bob (User alice) \<and>
   EditCommentView_dispatch blog_db (User alice) (POST (Some comment2)) (comment_pk comment1) =
     (Inl PermissionDenied, blog_db) \<and>
   DeleteCommentView_dispatch blog_db (User alice) (POST ()) 1 (comment_pk comment1) =
     (Inl PermissionDenied, blog_db)"
proof -
  have n: "\<not> user_eq bob (User alice)" by (simp add: blog_db_fields)
  from comment_change_denied_forbidden[OF wf_blog_db blog_members(4) blog_lookups(2) n,
      of "POST (Some comment2)" "POST ()" 1]
    wf_blog_db blog_members(4) blog_lookups(2) n
  show ?thesis by simp
qed

subsection \<open>C6: views that require a signed-in user\<close>

text \<open>
  Claim C6, as stated: every view that requires a signed-in actor (create, edit and
  delete a post, add, edit and delete a comment, edit the profile) answers a caller who is
  not signed in with a redirect to the login page, never with an error, and changes
  nothing. The post edit view does not do so: its own test sends every caller without
  permission, signed in or not, to the page of the post. Nor do the comment edit and
  delete views, whose author test runs before the login test and raises
  \<^verbatim>\<open>PermissionDenied\<close>.
\<close>

theorem anonymous_change_not_login_redirect:
  "PostUpdateView_dispatch blog_db AnonymousUser (POST (Some post2)) 1 =
     (Inr (HttpResponseRedirect (PostDetail 1)), blog_db) \<and>
   EditCommentView_dispatch blog_db AnonymousUser GET 1 = (Inl PermissionDenied, blog_db) \<and>
   DeleteCommentView_dispatch blog_db AnonymousUser (POST ()) 1 1 = (Inl PermissionDenied, blog_db)"
  by (simp add: PostUpdateView_dispatch_def PostUpdateView_test_func_def
      PostUpdateView_get_object_def EditCommentView_dispatch_def EditCommentView_get_object_def
      DeleteCommentView_dispatch_def DeleteCommentView_get_object_def
      get_object_or_404_def queryset_get_def comment_author_def blog_db_fields)

text \<open>
  Claim C6, amended. A caller who is not signed in is answered with a redirect to the
  login page, and nothing is changed, by the views that create a post, delete a post, add
  a comment and edit the profile. The view that edits a post answers such a caller, for a
  stored post, with a redirect to the page of that post, and changes nothing.
\<close>

theorem login_required_redirects:
  assumes "\<not> is_authenticated V"
  shows "PostCreateView_dispatch d V pm = (Inr (HttpResponseRedirect (Login (Some ''/login/''))), d) \<and>
         PostDeleteView_dispatch d V dm post_id = (Inr (HttpResponseRedirect (Login None)), d) \<and>
         AddCommentView_dispatch d V cm post_id = (Inr (HttpResponseRedirect (Login None)), d) \<and>
         EditProfileView_dispatch d V um = (Inr (HttpResponseRedirect (Login None)), d) \<and>
         (wf_db d \<longrightarrow> (\<forall>P\<in>set (posts d).
            PostUpdateView_dispatch d V pm (post_pk P) =
              (Inr (HttpResponseRedirect (PostDetail (post_pk P))), d)))"
proof -
  have login: "LoginRequiredMixin_dispatch d V url next_dispatch =
                 (Inr (HttpResponseRedirect (Login url)), d)" for url next_dispatch
    using assms by (simp add: LoginRequiredMixin_dispatch_def handle_no_permission_def)
  have 1: "PostCreateView_dispatch d V pm =
             (Inr (HttpResponseRedirect (Login (Some ''/login/''))), d)"
    unfolding PostCreateView_dispatch_def by (rule login)
  have 2: "PostDeleteView_dispatch d V dm post_id = (Inr (HttpResponseRedirect (Login None)), d)"
    unfolding PostDeleteView_dispatch_def by (rule login)
  have 3: "AddCommentView_dispatch d V cm post_id = (Inr (HttpResponseRedirect (Login None)), d)"
    unfolding AddCommentView_dispatch_def by (rule login)
  have 4: "EditProfileView_dispatch d V um = (Inr (HttpResponseRedirect (Login None)), d)"
    unfolding EditProfileView_dispatch_def by (rule login)
  have 5: "wf_db d \<longrightarrow> (\<forall>P\<in>set (posts d).
            PostUpdateView_dispatch d V pm (post_pk P) =
              (Inr (HttpResponseRedirect (PostDetail (post_pk P))), d))"
  proof (intro impI ballI)
    fix P assume wf: "wf_db d" and P: "P \<in> set (posts d)"
    from wf_post_author[OF wf P] obtain a where a: "post_author d P = Inr a" by blast
    from assms show "PostUpdateView_dispatch d V pm (post_pk P) =
              (Inr (HttpResponseRedirect (PostDetail (post_pk P))), d)"
      by (simp add: post_update_wf[OF wf P a] can_modify_def)
  qed
  from 1 2 3 4 5 show ?thesis by blast
qed

theorem login_required_redirects_witness:
  "\<not> is_authenticated AnonymousUser \<and>
   PostCreateView_dispatch blog_db AnonymousUser (POST (Some post1)) =
     (Inr (HttpResponseRedirect (Login (Some ''/login/''))), blog_db) \<and>
   PostDeleteView_dispatch blog_db AnonymousUser (POST ()) 1 =
     (Inr (HttpResponseRedirect (Login None)), blog_db) \<and>
   AddCommentView_dispatch blog_db AnonymousUser (POST (Some comment1)) 1 =
     (Inr (HttpResponseRedirect (Login None)), blog_db) \<and>
   EditProfileView_dispatch blog_db AnonymousUser (POST (Some bob)) =
     (Inr (HttpResponseRedirect (Login None)), blog_db) \<and>
   wf_db blog_db \<and> post1 \<in> set (posts blog_db) \<and>
   PostUpdateView_dispatch blog_db AnonymousUser (POST (Some post1)) (post_pk post1) =
     (Inr (HttpResponseRedirect (PostDetail (post_pk post1))), blog_db)"
proof -
  have a: "\<not> is_authenticated AnonymousUser" by simp
  from login_required_redirects[OF a, of blog_db "POST (Some post1)" "POST ()" 1
      "POST (Some comment1)" "POST (Some bob)"]
    wf_blog_db blog_members(1)
  show ?thesis by simp
qed

subsection \<open>C7: the profile page\<close>

text \<open>
  Claim C7. For every stored user \<open>U\<close> and every viewer \<open>V\<close>, signed in or not, the
  profile listing of \<open>U\<close> holds exactly the stored posts whose author is \<open>U\<close>, each once:
  no test on publication is made, so drafts, posts of unpublished categories and posts
  dated in the future are listed to everyone.
\<close>

theorem profile_lists_all_posts_of_user:
  assumes "wf_db d" and "U \<in> set (users d)"
  shows "\<exists>rows. ProfileView_get_queryset d V (username U) = Inr rows \<and>
           mset (map row rows) = mset (filter (\<lambda>p. post_author_id p = user_pk U) (posts d)) \<and>
           row ` set rows = {p \<in> set (posts d). post_author_id p = user_pk U}"
proof -
  from assms have prof: "get_object_or_404 (\<lambda>u. username u = username U) (users d) = Inr U"
    by (simp add: wf_db_def get_object_or_404_pk)
  let ?rows = "order_by_pub_date_desc row
                 (annotate d (filter (\<lambda>p. post_author_id p = user_pk U) (posts d)))"
  have res: "ProfileView_get_queryset d V (username U) = Inr ?rows"
    by (simp add: ProfileView_get_queryset_def prof)
  have "mset (map row ?rows) =
          image_mset row (mset (annotate d (filter (\<lambda>p. post_author_id p = user_pk U) (posts d))))"
    by (simp only: mset_map mset_order_by)
  also have "\<dots> = mset (map row (annotate d (filter (\<lambda>p. post_author_id p = user_pk U) (posts d))))"
    by (simp only: mset_map)
  finally have m: "mset (map row ?rows) =
                   mset (filter (\<lambda>p. post_author_id p = user_pk U) (posts d))"
    by (simp only: map_row_annotate)
  have "set (map row ?rows) = set (filter (\<lambda>p. post_author_id p = user_pk U) (posts d))"
    using m by (rule mset_eq_setD)
  then have s: "row ` set ?rows = {p \<in> set (posts d). post_author_id p = user_pk U}"
    by simp
  from res m s show ?thesis by blast
qed

theorem profile_lists_all_posts_of_user_witness:
  "wf_db blog_db \<and> alice \<in> set (users blog_db) \<and>
   (\<exists>rows. ProfileView_get_queryset blog_db (User bob) ''alice'' = Inr rows \<and>
      mset (map row rows) = mset [post1, post2, post4] \<and>
      row ` set rows = set [post1, post2, post4])"
proof -
  have n: "username alice = ''alice''" by (simp add: blog_db_fields)
  have f: "filter (\<lambda>p. post_author_id p = user_pk alice) (posts blog_db) = [post1, post2, post4]"
    by (simp add: blog_db_fields)
  have s: "{p \<in> set (posts blog_db). post_author_id p = user_pk alice} = set [post1, post2, post4]"
    using arg_cong[OF f, of set] by simp
  note w = profile_lists_all_posts_of_user[OF wf_blog_db blog_members(5), of "User bob",
      unfolded n f s]
  show ?thesis
    apply (intro conjI)
      apply (rule wf_blog_db)
     apply (rule blog_members(5))
    apply (rule w)
    done
qed

subsection \<open>C8: the category feed\<close>

text \<open>
  Claim C8. For every slug, the category feed raises \<^verbatim>\<open>Http404\<close> when no category has
  the slug or the category that has it is not published; otherwise it holds exactly the
  stored posts of that category that are published and not dated after the current time.
\<close>

theorem category_feed_contents:
  "((\<forall>c\<in>set (categories d). category_slug c = s \<longrightarrow> \<not> category_is_published c) \<longrightarrow>
      CategoryPostsView_get_queryset d now s = Inl Http404) \<and>
   (wf_db d \<longrightarrow>
      (\<forall>c\<in>set (categories d). category_slug c = s \<and> category_is_published c \<longrightarrow>
         (\<exists>rows. CategoryPostsView_get_queryset d now s = Inr rows \<and>
            mset (map row rows) =
              mset (filter (\<lambda>p. post_category_id p = category_pk c \<and> post_is_published p
                              \<and> post_pub_date p \<le> now) (posts d)))))"
proof (intro conjI impI ballI)
  assume "\<forall>c\<in>set (categories d). category_slug c = s \<longrightarrow> \<not> category_is_published c"
  then have "\<forall>c\<in>set (categories d). \<not> (category_slug c = s \<and> category_is_published c)"
    by blast
  from get_object_or_404_none[OF this]
  show "CategoryPostsView_get_queryset d now s = Inl Http404"
    by (simp add: CategoryPostsView_get_queryset_def)
next
  fix c
  assume wf: "wf_db d" and c: "c \<in> set (categories d)"
    and sc: "category_slug c = s \<and> category_is_published c"
  let ?ps = "filter (\<lambda>p. post_is_published p \<and> post_pub_date p \<le> now
                        \<and> post_category_id p = category_pk c) (posts d)"
  let ?rows = "annotate d (order_by_pub_date_desc (\<lambda>p. p) ?ps)"
  from get_published_category[OF wf c] sc
  have g: "get_object_or_404 (\<lambda>x. category_slug x = s \<and> category_is_published x)
             (categories d) = Inr c" by auto
  from sc have pub: "category_is_published c" by simp
  have res: "CategoryPostsView_get_queryset d now s = Inr ?rows"
    by (simp add: CategoryPostsView_get_queryset_def g category_filter_redundant[OF c pub])
  have ps: "?ps = filter (\<lambda>p. post_category_id p = category_pk c \<and> post_is_published p
                              \<and> post_pub_date p \<le> now) (posts d)"
    by (rule filter_cong) auto
  have "mset (map row ?rows) = mset ?ps"
    by (simp only: map_row_annotate mset_order_by)
  then have "mset (map row ?rows) =
     mset (filter (\<lambda>p. post_category_id p = category_pk c \<and> post_is_published p
                              \<and> post_pub_date p \<le> now) (posts d))"
    by (simp only: ps)
  with res show "\<exists>rows. CategoryPostsView_get_queryset d now s = Inr rows \<and>
            mset (map row rows) =
              mset (filter (\<lambda>p. post_category_id p = category_pk c \<and> post_is_published p
                              \<and> post_pub_date p \<le> now) (posts d))"
    by blast
qed

theorem category_feed_contents_witness:
  "categories blog_db = [travel, hidden] \<and> category_slug travel \<noteq> ''hidden'' \<and>
   \<not> category_is_published hidden \<and>
   CategoryPostsView_get_queryset blog_db 50 ''hidden'' = Inl Http404 \<and>
   wf_db blog_db \<and> travel \<in> set (categories blog_db) \<and>
   category_slug travel = ''travel'' \<and> category_is_published travel \<and>
   (\<exists>rows. CategoryPostsView_get_queryset blog_db 50 ''travel'' = Inr rows \<and>
      mset (map row rows) = mset [post1, post5])"
proof -
  have h: "\<forall>c\<in>set (categories blog_db). category_slug c = ''hidden'' \<longrightarrow> \<not> category_is_published c"
    by (simp add: blog_db_fields)
  have st: "category_slug travel = ''travel'' \<and> category_is_published travel"
    by (simp add: blog_db_fields)
  have f: "filter (\<lambda>p. post_category_id p = category_pk travel \<and> post_is_published p
                      \<and> post_pub_date p \<le> 50) (posts blog_db) = [post1, post5]"
    by (simp add: blog_db_fields)
  note 1 = category_feed_contents[of blog_db "''hidden''" 50, THEN conjunct1, THEN mp, OF h]
  note 2 = category_feed_contents[of blog_db "''travel''" 50, THEN conjunct2, THEN mp,
      OF wf_blog_db, THEN bspec, OF blog_members(6), THEN mp, OF st, unfolded f]
  show ?thesis
    apply (intro conjI)
            apply (rule db_tables(2))
           apply (simp add: other_fields)
          apply (rule other_fields(10))
         apply (rule 1)
        apply (rule wf_blog_db)
       apply (rule blog_members(6))
      apply (rule st[THEN conjunct1])
     apply (rule st[THEN conjunct2])
    apply (rule 2)
    done
qed

subsection \<open>C9: order and comment counts of the listings\<close>

text \<open>
  Claim C9. In each of the three listings (global feed, profile, category feed) the
  posts come in descending order of publication date, and each post carries a
  \<^verbatim>\<open>comment_count\<close> equal to the number of stored comments that reference it.
\<close>

theorem listings_ordered_and_counted:
  "(sorted_wrt (\<lambda>a b. post_pub_date (row b) \<le> post_pub_date (row a))
      (PostListView_get_queryset d now) \<and>
    (\<forall>r\<in>set (PostListView_get_queryset d now).
       comment_count r = length (filter (\<lambda>c. comment_post_id c = post_pk (row r)) (comments d)))) \<and>
   (\<forall>rows. ProfileView_get_queryset d V uname = Inr rows \<longrightarrow>
      sorted_wrt (\<lambda>a b. post_pub_date (row b) \<le> post_pub_date (row a)) rows \<and>
      (\<forall>r\<in>set rows.
         comment_count r = length (filter (\<lambda>c. comment_post_id c = post_pk (row r)) (comments d)))) \<and>
   (\<forall>rows. CategoryPostsView_get_queryset d now s = Inr rows \<longrightarrow>
      sorted_wrt (\<lambda>a b. post_pub_date (row b) \<le> post_pub_date (row a)) rows \<and>
      (\<forall>r\<in>set rows.
         comment_count r = length (filter (\<lambda>c. comment_post_id c = post_pk (row r)) (comments d))))"
proof (intro conjI allI impI)
  show "sorted_wrt (\<lambda>a b. post_pub_date (row b) \<le> post_pub_date (row a))
          (PostListView_get_queryset d now)"
    unfolding PostListView_get_queryset_def
    by (rule sorted_annotate) (rule sorted_order_by)
next
  show "\<forall>r\<in>set (PostListView_get_queryset d now).
       comment_count r = length (filter (\<lambda>c. comment_post_id c = post_pk (row r)) (comments d))"
    unfolding PostListView_get_queryset_def
    by (auto dest: annotate_comment_count simp: Count_comments_def)
next
  fix rows
  assume "ProfileView_get_queryset d V uname = Inr rows"
  then obtain ps where rows: "rows = order_by_pub_date_desc row (annotate d ps)"
    by (auto simp: ProfileView_get_queryset_def split: sum.splits)
  show "sorted_wrt (\<lambda>a b. post_pub_date (row b) \<le> post_pub_date (row a)) rows"
    unfolding rows by (rule sorted_order_by)
  show "\<forall>r\<in>set rows.
         comment_count r = length (filter (\<lambda>c. comment_post_id c = post_pk (row r)) (comments d))"
    unfolding rows
    by (auto simp: set_order_by Count_comments_def dest: annotate_comment_count)
next
  fix rows
  assume "CategoryPostsView_get_queryset d now s = Inr rows"
  then obtain ps Q where rows: "rows = filter Q (annotate d (order_by_pub_date_desc (\<lambda>p. p) ps))"
    by (auto simp: CategoryPostsView_get_queryset_def split: sum.splits)
  show "sorted_wrt (\<lambda>a b. post_pub_date (row b) \<le> post_pub_date (row a)) rows"
    unfolding rows
    by (rule sorted_wrt_filter, rule sorted_annotate, rule sorted_order_by)
  show "\<forall>r\<in>set rows.
         comment_count r = length (filter (\<lambda>c. comment_post_id c = post_pk (row r)) (comments d))"
    unfolding rows
    by (auto simp: Count_comments_def dest: annotate_comment_count)
qed

theorem listings_ordered_and_counted_witness:
  "PostListView_get_queryset blog_db 50 =
     [\<lparr>row = post5, comment_count = 1\<rparr>, \<lparr>row = post1, comment_count = 2\<rparr>] \<and>
   ProfileView_get_queryset blog_db AnonymousUser ''alice'' =
     Inr [\<lparr>row = post4, comment_count = 0\<rparr>, \<lparr>row = post2, comment_count = 0\<rparr>,
          \<lparr>row = post1, comment_count = 2\<rparr>] \<and>
   CategoryPostsView_get_queryset blog_db 50 ''travel'' =
     Inr [\<lparr>row = post5, comment_count = 1\<rparr>, \<lparr>row = post1, comment_count = 2\<rparr>] \<and>
   sorted_wrt (\<lambda>a b. post_pub_date (row b) \<le> post_pub_date (row a))
     [\<lparr>row = post4, comment_count = 0\<rparr>, \<lparr>row = post2, comment_count = 0\<rparr>,
      \<lparr>row = post1, comment_count = 2\<rparr>] \<and>
   sorted_wrt (\<lambda>a b. post_pub_date (row b) \<le> post_pub_date (row a))
     [\<lparr>row = post5, comment_count = 1\<rparr>, \<lparr>row = post1, comment_count = 2\<rparr>] \<and>
   length (filter (\<lambda>c. comment_post_id c = post_pk post1) (comments blog_db)) = 2"
proof -
  have l: "PostListView_get_queryset blog_db 50 =
     [\<lparr>row = post5, comment_count = 1\<rparr>, \<lparr>row = post1, comment_count = 2\<rparr>]"
    by (simp add: PostListView_get_queryset_def view_defs blog_db_fields)
  have p: "ProfileView_get_queryset blog_db AnonymousUser ''alice'' =
     Inr [\<lparr>row = post4, comment_count = 0\<rparr>, \<lparr>row = post2, comment_count = 0\<rparr>,
          \<lparr>row = post1, comment_count = 2\<rparr>]"
    by (simp add: ProfileView_get_queryset_def view_defs blog_db_fields)
  have c: "CategoryPostsView_get_queryset blog_db 50 ''travel'' =
     Inr [\<lparr>row = post5, comment_count = 1\<rparr>, \<lparr>row = post1, comment_count = 2\<rparr>]"
    by (simp add: CategoryPostsView_get_queryset_def view_defs blog_db_fields)
  note w = listings_ordered_and_counted[of blog_db 50 AnonymousUser "''alice''" "''travel''"]
  note w1 = w[THEN conjunct1, THEN conjunct1, unfolded l]
  note w2 = w[THEN conjunct2, THEN conjunct1, THEN spec, THEN mp, OF p]
  from w2 have "comment_count \<lparr>row = post1, comment_count = 2\<rparr> =
      length (filter (\<lambda>c. comment_post_id c = post_pk (row \<lparr>row = post1, comment_count = 2\<rparr>))
                (comments blog_db))"
    by simp
  then have 3: "length (filter (\<lambda>c. comment_post_id c = post_pk post1) (comments blog_db)) = 2"
    by simp
  show ?thesis
    apply (intro conjI)
         apply (rule l)
        apply (rule p)
       apply (rule c)
      apply (rule w2[THEN conjunct1])
     apply (rule w1)
    apply (rule 3)
    done
qed

subsection \<open>C10: the repeated category test\<close>

text \<open>
  Claim C10. In every state of the database and for every slug, the category feed with
  the test on the category's publication made twice, as the view makes it, returns what
  the query returns with the test made once: the second
  \<^verbatim>\<open>filter(category__is_published=True)\<close> removes no row.
\<close>

theorem category_filter_twice_eq_once:
  "CategoryPostsView_get_queryset d now s = CategoryPostsView_get_queryset_once d now s"
proof (cases "get_object_or_404
                (\<lambda>c. category_slug c = s \<and> category_is_published c) (categories d)")
  case (Inl e)
  then show ?thesis
    by (simp add: CategoryPostsView_get_queryset_def CategoryPostsView_get_queryset_once_def)
next
  case (Inr cat)
  from get_object_or_404_Inr[OF Inr]
  have "cat \<in> set (categories d)" and "category_is_published cat" by simp_all
  from category_filter_redundant[OF this] Inr show ?thesis
    by (simp add: CategoryPostsView_get_queryset_def CategoryPostsView_get_queryset_once_def)
qed

theorem category_filter_twice_eq_once_witness:
  "CategoryPostsView_get_queryset_once blog_db 50 ''travel'' =
     Inr [\<lparr>row = post5, comment_count = 1\<rparr>, \<lparr>row = post1, comment_count = 2\<rparr>] \<and>
   CategoryPostsView_get_queryset_once blog_db 50 ''hidden'' = Inl Http404"
proof -
  have 1: "CategoryPostsView_get_queryset blog_db 50 ''travel'' =
     Inr [\<lparr>row = post5, comment_count = 1\<rparr>, \<lparr>row = post1, comment_count = 2\<rparr>]"
    by (simp add: CategoryPostsView_get_queryset_def view_defs blog_db_fields)
  have 2: "CategoryPostsView_get_queryset blog_db 50 ''hidden'' = Inl Http404"
    by (simp add: CategoryPostsView_get_queryset_def view_defs blog_db_fields)
  show ?thesis
    apply (rule conjI)
     apply (rule trans[OF category_filter_twice_eq_once[symmetric] 1])
    apply (rule trans[OF category_filter_twice_eq_once[symmetric] 2])
    done
qed

end
